theory Spec2Isabelle
  imports Complex_Main "HOL-Library.Sublist"
begin

section \<open>Cells of a data frame\<close>

text \<open>
  A float64 cell of a pandas column. The finite values are idealised as reals; the
  special values the source can produce or meet (a missing CSV cell is NaN, a division
  by zero is an infinity or NaN) are kept, because the filters of the pipeline compare
  with them: every comparison with NaN is False. Signed zeros are not distinguished.
\<close>

datatype npfloat = Fin real | PosInf | NegInf | NaN

text \<open>\<open>column < c\<close> and \<open>column > c\<close> for a Python constant \<open>c\<close>.\<close>

fun fl_lt :: "npfloat \<Rightarrow> real \<Rightarrow> bool" where
  "fl_lt (Fin x) c = (x < c)"
| "fl_lt NegInf c = True"
| "fl_lt PosInf c = False"
| "fl_lt NaN c = False"

fun fl_gt :: "npfloat \<Rightarrow> real \<Rightarrow> bool" where
  "fl_gt (Fin x) c = (x > c)"
| "fl_gt PosInf c = True"
| "fl_gt NegInf c = False"
| "fl_gt NaN c = False"

fun fl_add :: "npfloat \<Rightarrow> npfloat \<Rightarrow> npfloat" where
  "fl_add (Fin x) (Fin y) = Fin (x + y)"
| "fl_add NaN _ = NaN"
| "fl_add _ NaN = NaN"
| "fl_add PosInf NegInf = NaN"
| "fl_add NegInf PosInf = NaN"
| "fl_add PosInf _ = PosInf"
| "fl_add _ PosInf = PosInf"
| "fl_add NegInf _ = NegInf"
| "fl_add _ NegInf = NegInf"

fun fl_mul :: "npfloat \<Rightarrow> npfloat \<Rightarrow> npfloat" where
  "fl_mul (Fin x) (Fin y) = Fin (x * y)"
| "fl_mul NaN _ = NaN"
| "fl_mul _ NaN = NaN"
| "fl_mul PosInf (Fin y) = (if y > 0 then PosInf else if y < 0 then NegInf else NaN)"
| "fl_mul NegInf (Fin y) = (if y > 0 then NegInf else if y < 0 then PosInf else NaN)"
| "fl_mul (Fin x) PosInf = (if x > 0 then PosInf else if x < 0 then NegInf else NaN)"
| "fl_mul (Fin x) NegInf = (if x > 0 then NegInf else if x < 0 then PosInf else NaN)"
| "fl_mul PosInf PosInf = PosInf"
| "fl_mul NegInf NegInf = PosInf"
| "fl_mul PosInf NegInf = NegInf"
| "fl_mul NegInf PosInf = NegInf"

text \<open>numpy division: a zero divisor gives an infinity (or NaN for 0/0), never an exception.\<close>

fun fl_div :: "npfloat \<Rightarrow> npfloat \<Rightarrow> npfloat" where
  "fl_div (Fin x) (Fin y) =
     (if y \<noteq> 0 then Fin (x / y)
      else if x > 0 then PosInf else if x < 0 then NegInf else NaN)"
| "fl_div NaN _ = NaN"
| "fl_div _ NaN = NaN"
| "fl_div (Fin x) PosInf = Fin 0"
| "fl_div (Fin x) NegInf = Fin 0"
| "fl_div PosInf (Fin y) = (if y \<ge> 0 then PosInf else NegInf)"
| "fl_div NegInf (Fin y) = (if y \<ge> 0 then NegInf else PosInf)"
| "fl_div PosInf PosInf = NaN"
| "fl_div PosInf NegInf = NaN"
| "fl_div NegInf PosInf = NaN"
| "fl_div NegInf NegInf = NaN"

text \<open>\<open>np.rint\<close>: round to the nearest integer, a tie to the even one.\<close>

definition rint :: "real \<Rightarrow> int" where
  "rint x =
     (let f = \<lfloor>x\<rfloor>; d = x - of_int f in
      if d < 1 / 2 then f else if d > 1 / 2 then f + 1
      else if even f then f else f + 1)"

text \<open>\<open>Series.round(2)\<close>: scale by 100, \<open>rint\<close>, scale back.\<close>

definition round2 :: "real \<Rightarrow> real" where
  "round2 x = of_int (rint (x * 100)) / 100"

fun fl_round2 :: "npfloat \<Rightarrow> npfloat" where
  "fl_round2 (Fin x) = Fin (round2 x)"
| "fl_round2 PosInf = PosInf"
| "fl_round2 NegInf = NegInf"
| "fl_round2 NaN = NaN"

section \<open>Records\<close>

text \<open>
  A row of the raw feed \<open>train.csv\<close>. The identifier, the vendor, the passenger count
  and the duration are the feed's string and int64 columns; a timestamp cell is the
  instant \<open>pd.to_datetime\<close> reads from it, or \<open>None\<close> when the cell is missing; the
  coordinates are float64 cells.
\<close>

record raw_trip =
  id_col :: string
  vendor_id :: int
  pickup_datetime :: "int option"
  dropoff_datetime :: "int option"
  passenger_count :: int
  pickup_longitude :: npfloat
  pickup_latitude :: npfloat
  dropoff_longitude :: npfloat
  dropoff_latitude :: npfloat
  store_and_fwd_flag :: string
  trip_duration :: int

text \<open>A row after \<open>calculate_derived_features\<close>: the raw columns and the derived ones.\<close>

record trip = raw_trip +
  trip_distance_km :: npfloat
  trip_speed_kmh :: npfloat
  fare_amount :: npfloat
  fare_per_km :: npfloat
  pickup_zone :: "string option"
  dropoff_zone :: "string option"

section \<open>clean\_data\<close>

text \<open>\<open>df.drop_duplicates(subset=[key])\<close>: a row is dropped when its key was seen before.\<close>

fun drop_duplicates_from :: "('a \<Rightarrow> 'k) \<Rightarrow> 'k list \<Rightarrow> 'a list \<Rightarrow> 'a list" where
  "drop_duplicates_from key seen [] = []"
| "drop_duplicates_from key seen (r # rs) =
     (if key r \<in> set seen then drop_duplicates_from key seen rs
      else r # drop_duplicates_from key (key r # seen) rs)"

definition drop_duplicates :: "('a \<Rightarrow> 'k) \<Rightarrow> 'a list \<Rightarrow> 'a list" where
  "drop_duplicates key df = drop_duplicates_from key [] df"

text \<open>The row mask of \<open>dropna(subset=[...])\<close> over the two timestamps and four coordinates.\<close>

definition has_na :: "'a raw_trip_scheme \<Rightarrow> bool" where
  "has_na r \<longleftrightarrow>
     pickup_datetime r = None \<or> dropoff_datetime r = None \<or>
     pickup_latitude r = NaN \<or> pickup_longitude r = NaN \<or>
     dropoff_latitude r = NaN \<or> dropoff_longitude r = NaN"

text \<open>\<open>dropoff_datetime <= pickup_datetime\<close>; a comparison with NaT is False.\<close>

definition invalid_datetime :: "'a raw_trip_scheme \<Rightarrow> bool" where
  "invalid_datetime r =
     (case (dropoff_datetime r, pickup_datetime r) of
        (Some d, Some p) \<Rightarrow> d \<le> p
      | _ \<Rightarrow> False)"

definition lat_min :: real where "lat_min = 40.4774"
definition lat_max :: real where "lat_max = 40.9176"
definition lon_min :: real where "lon_min = -74.2591"
definition lon_max :: real where "lon_max = -73.7004"

definition invalid_coords :: "'a raw_trip_scheme \<Rightarrow> bool" where
  "invalid_coords r \<longleftrightarrow>
     fl_lt (pickup_latitude r) lat_min \<or> fl_gt (pickup_latitude r) lat_max \<or>
     fl_lt (pickup_longitude r) lon_min \<or> fl_gt (pickup_longitude r) lon_max \<or>
     fl_lt (dropoff_latitude r) lat_min \<or> fl_gt (dropoff_latitude r) lat_max \<or>
     fl_lt (dropoff_longitude r) lon_min \<or> fl_gt (dropoff_longitude r) lon_max"

definition invalid_duration :: "'a raw_trip_scheme \<Rightarrow> bool" where
  "invalid_duration r \<longleftrightarrow> trip_duration r > 21600 \<or> trip_duration r < 60"

definition invalid_passengers :: "'a raw_trip_scheme \<Rightarrow> bool" where
  "invalid_passengers r \<longleftrightarrow> passenger_count r < 1 \<or> passenger_count r > 6"

text \<open>
  \<open>df[mask]['id'].tolist()\<close> and \<open>df[~mask]\<close>, for a mask computed row by row.
\<close>

definition masked_ids :: "('a raw_trip_scheme \<Rightarrow> bool) \<Rightarrow> 'a raw_trip_scheme list \<Rightarrow> string list" where
  "masked_ids msk df = map id_col (filter msk df)"

definition unmasked :: "('a \<Rightarrow> bool) \<Rightarrow> 'a list \<Rightarrow> 'a list" where
  "unmasked msk df = filter (\<lambda>r. \<not> msk r) df"

text \<open>
  \<open>DataProcessor.clean_data\<close>. The instance attribute \<open>excluded_records\<close> is passed in
  and returned: the method extends it in place.
\<close>

definition clean_data :: "string list \<Rightarrow> raw_trip list \<Rightarrow> raw_trip list \<times> string list" where
  "clean_data excluded_records df =
     (let df1 = drop_duplicates id_col df;
          df2 = unmasked has_na df1;
          ex3 = excluded_records @ masked_ids invalid_datetime df2;
          df3 = unmasked invalid_datetime df2;
          ex4 = ex3 @ masked_ids invalid_coords df3;
          df4 = unmasked invalid_coords df3;
          ex5 = ex4 @ masked_ids invalid_duration df4;
          df5 = unmasked invalid_duration df4;
          ex6 = ex5 @ masked_ids invalid_passengers df5;
          df6 = unmasked invalid_passengers df5
      in (df6, ex6))"

section \<open>calculate\_derived\_features\<close>

definition radians :: "real \<Rightarrow> real" where
  "radians x = x * pi / 180"

text \<open>
  The nested \<open>haversine_distance\<close>. A cell that is not finite makes every term NaN
  (\<open>sin\<close> and \<open>cos\<close> of an infinity are NaN); \<open>np.sqrt\<close> of a negative number and
  \<open>np.arcsin\<close> outside \<open>[-1, 1]\<close> are NaN as well.
\<close>

definition haversine_distance :: "npfloat \<Rightarrow> npfloat \<Rightarrow> npfloat \<Rightarrow> npfloat \<Rightarrow> npfloat" where
  "haversine_distance lat1 lon1 lat2 lon2 =
     (case lat1 of Fin la1 \<Rightarrow>
       (case lon1 of Fin lo1 \<Rightarrow>
         (case lat2 of Fin la2 \<Rightarrow>
           (case lon2 of Fin lo2 \<Rightarrow>
              (let R = 6371;
                   dlat = radians la2 - radians la1;
                   dlon = radians lo2 - radians lo1;
                   a = (sin (dlat / 2))\<^sup>2
                       + cos (radians la1) * cos (radians la2) * (sin (dlon / 2))\<^sup>2
               in if a < 0 \<or> 1 < a then NaN else Fin (R * (2 * arcsin (sqrt a))))
            | _ \<Rightarrow> NaN)
          | _ \<Rightarrow> NaN)
        | _ \<Rightarrow> NaN)
      | _ \<Rightarrow> NaN)"

definition trip_distance :: "'a raw_trip_scheme \<Rightarrow> npfloat" where
  "trip_distance r =
     haversine_distance (pickup_latitude r) (pickup_longitude r)
       (dropoff_latitude r) (dropoff_longitude r)"

definition trip_speed :: "'a raw_trip_scheme \<Rightarrow> npfloat" where
  "trip_speed r =
     fl_div (trip_distance r) (fl_div (Fin (of_int (trip_duration r))) (Fin 3600))"

definition invalid_speed :: "'a raw_trip_scheme \<Rightarrow> bool" where
  "invalid_speed r \<longleftrightarrow> fl_gt (trip_speed r) 200 \<or> fl_lt (trip_speed r) 1"

definition base_fare :: real where "base_fare = 2.50"
definition per_km_rate :: real where "per_km_rate = 1.50"
definition per_minute_rate :: real where "per_minute_rate = 0.50"

definition fare :: "'a raw_trip_scheme \<Rightarrow> npfloat" where
  "fare r =
     fl_round2
       (fl_add
         (fl_add (Fin base_fare) (fl_mul (trip_distance r) (Fin per_km_rate)))
         (fl_mul (fl_div (Fin (of_int (trip_duration r))) (Fin 60)) (Fin per_minute_rate)))"

definition fare_per_distance :: "'a raw_trip_scheme \<Rightarrow> npfloat" where
  "fare_per_distance r = fl_round2 (fl_div (fare r) (trip_distance r))"

subsection \<open>create\_zones\<close>

datatype error = ValueError

text \<open>\<open>np.linspace(start, stop, num, endpoint=True)\<close>.\<close>

definition linspace :: "real \<Rightarrow> real \<Rightarrow> nat \<Rightarrow> real list" where
  "linspace start stop num =
     map (\<lambda>i. start + real i * ((stop - start) / real (num - 1))) [0..<num]"

text \<open>
  The bin edges \<open>pd.cut\<close> derives from an integer \<open>bins\<close> (with \<open>right=True\<close>): the
  range of the data, widened by 0.1 percent at the low end, or on both sides of a
  single value.
\<close>

definition nbins_to_bins :: "real \<Rightarrow> real \<Rightarrow> nat \<Rightarrow> real list" where
  "nbins_to_bins mn mx nbins =
     (if mn = mx then
        (let mn' = mn - (if mn \<noteq> 0 then 0.001 * \<bar>mn\<bar> else 0.001);
             mx' = mx + (if mx \<noteq> 0 then 0.001 * \<bar>mx\<bar> else 0.001)
         in linspace mn' mx' (nbins + 1))
      else
        (let bins = linspace mn mx (nbins + 1);
             adj = (mx - mn) * 0.001
         in bins[0 := bins ! 0 - adj]))"

text \<open>\<open>bins.searchsorted(v, side='left')\<close> on increasing edges.\<close>

definition searchsorted_left :: "real list \<Rightarrow> real \<Rightarrow> nat" where
  "searchsorted_left bins v = length (takeWhile (\<lambda>b. b < v) bins)"

definition bin_label :: "real list \<Rightarrow> npfloat \<Rightarrow> nat option" where
  "bin_label bins x =
     (case x of
        Fin v \<Rightarrow>
          (let ids = searchsorted_left bins v
           in if ids = length bins \<or> ids = 0 then None else Some (ids - 1))
      | _ \<Rightarrow> None)"

fun finite_values :: "npfloat list \<Rightarrow> real list" where
  "finite_values [] = []"
| "finite_values (Fin v # xs) = v # finite_values xs"
| "finite_values (_ # xs) = finite_values xs"

text \<open>
  \<open>pd.cut(x, bins=nbins, labels=False)\<close>. It raises ValueError on an empty column, on a
  column that holds an infinity, and on a column of NaN only (its edges are NaN, which
  are not unique). A NaN cell among finite ones gets no label.
\<close>

definition pd_cut :: "npfloat list \<Rightarrow> nat \<Rightarrow> error + nat option list" where
  "pd_cut x nbins =
     (if x = [] then Inl ValueError
      else if PosInf \<in> set x \<or> NegInf \<in> set x then Inl ValueError
      else
        (case finite_values x of
           [] \<Rightarrow> Inl ValueError
         | v # vs \<Rightarrow>
             (let mn = fold min vs v; mx = fold max vs v;
                  bins = nbins_to_bins mn mx nbins
              in Inr (map (bin_label bins) x))))"

text \<open>Python's \<open>str\<close> of a non-negative integer.\<close>

fun str_nat :: "nat \<Rightarrow> string" where
  "str_nat n =
     (if n < 10 then [''0123456789'' ! n]
      else str_nat (n div 10) @ [''0123456789'' ! (n mod 10)])"

declare str_nat.simps [simp del]

definition str_int :: "int \<Rightarrow> string" where
  "str_int i = (if i < 0 then ''-'' @ str_nat (nat (- i)) else str_nat (nat i))"

text \<open>
  How a column of labels prints in the f-string: an int64 column prints \<open>3\<close>; with a
  missing label the column is float64 and prints \<open>3.0\<close> and \<open>nan\<close>.
\<close>

definition label_strs :: "nat option list \<Rightarrow> string list" where
  "label_strs ls =
     (if None \<in> set ls
      then map (\<lambda>l. case l of None \<Rightarrow> ''nan'' | Some n \<Rightarrow> str_nat n @ ''.0'') ls
      else map (\<lambda>l. case l of None \<Rightarrow> ''nan'' | Some n \<Rightarrow> str_nat n) ls)"

definition create_zones :: "npfloat list \<Rightarrow> npfloat list \<Rightarrow> error + string list" where
  "create_zones latitudes longitudes =
     (case pd_cut latitudes 20 of
        Inl e \<Rightarrow> Inl e
      | Inr lat_bins \<Rightarrow>
          (case pd_cut longitudes 20 of
             Inl e \<Rightarrow> Inl e
           | Inr lon_bins \<Rightarrow>
               Inr (map (\<lambda>(lat, lon). ''Zone_'' @ lat @ ''_'' @ lon)
                      (zip (label_strs lat_bins) (label_strs lon_bins)))))"

subsection \<open>The derived columns\<close>

definition derive_row :: "raw_trip \<Rightarrow> string \<Rightarrow> string \<Rightarrow> trip" where
  "derive_row r pz dz =
     raw_trip.extend r
       (trip.fields (trip_distance r) (trip_speed r) (fare r) (fare_per_distance r)
          (Some pz) (Some dz))"

text \<open>
  \<open>DataProcessor.calculate_derived_features\<close>. The ledger is extended before the zones
  are computed, so it is returned also when \<open>create_zones\<close> raises.
\<close>

definition calculate_derived_features ::
    "string list \<Rightarrow> raw_trip list \<Rightarrow> (error + trip list) \<times> string list" where
  "calculate_derived_features excluded_records df =
     (let ex = excluded_records @ masked_ids invalid_speed df;
          df1 = unmasked invalid_speed df
      in case create_zones (map pickup_latitude df1) (map pickup_longitude df1) of
           Inl e \<Rightarrow> (Inl e, ex)
         | Inr pzs \<Rightarrow>
             (case create_zones (map dropoff_latitude df1) (map dropoff_longitude df1) of
                Inl e \<Rightarrow> (Inl e, ex)
              | Inr dzs \<Rightarrow>
                  (Inr (map (\<lambda>(r, pz, dz). derive_row r pz dz) (zip df1 (zip pzs dzs))), ex)))"

text \<open>The cleaning run of \<open>clean_all_data_and_save\<close>: \<open>clean_data\<close>, then the features.\<close>

definition clean_run :: "string list \<Rightarrow> raw_trip list \<Rightarrow> (error + trip list) \<times> string list" where
  "clean_run excluded_records df =
     (case clean_data excluded_records df of
        (df1, ex1) \<Rightarrow> calculate_derived_features ex1 df1)"

section \<open>The store and the loader\<close>

text \<open>
  The three tables of \<open>init_db\<close>, each a list of rows in insertion order. The
  \<open>created_at\<close> columns, which only the store's clock writes, are left out. A SERIAL
  key is drawn from the table's sequence, kept as the last value drawn; the sequence
  advances on every INSERT, also on one that ends in a conflict. Values are stored as
  they are sent. Writes that the store would reject for another reason than the
  conflict the statement names are outside the model.
\<close>

record vendor_row =
  v_pk :: nat
  v_vendor_id :: int
  v_vendor_name :: string

record zone_row =
  z_pk :: nat
  zone_name :: string
  latitude :: npfloat
  longitude :: npfloat
  trip_count :: nat

record trip_row = raw_trip +
  db_trip_distance_km :: npfloat
  db_trip_speed_kmh :: npfloat
  db_fare_amount :: npfloat
  db_fare_per_km :: npfloat
  pickup_zone_id :: "nat option"
  dropoff_zone_id :: "nat option"

record store =
  vendors :: "vendor_row list"
  vendors_seq :: nat
  zones :: "zone_row list"
  zones_seq :: nat
  trips :: "trip_row list"

text \<open>\<open>INSERT INTO vendors ... ON CONFLICT (vendor_id) DO NOTHING\<close>.\<close>

definition insert_vendor :: "int \<Rightarrow> store \<Rightarrow> store" where
  "insert_vendor vid s =
     (let pk = vendors_seq s + 1;
          s' = s\<lparr>vendors_seq := pk\<rparr>
      in if vid \<in> set (map v_vendor_id (vendors s)) then s'
         else s'\<lparr>vendors := vendors s @
                [\<lparr>v_pk = pk, v_vendor_id = vid, v_vendor_name = ''Vendor_'' @ str_int vid\<rparr>]\<rparr>)"

text \<open>\<open>Series.unique()\<close>: the distinct values in order of first appearance.\<close>

definition unique :: "'a list \<Rightarrow> 'a list" where
  "unique xs = drop_duplicates (\<lambda>x. x) xs"

definition insert_vendors :: "store \<Rightarrow> trip list \<Rightarrow> store" where
  "insert_vendors s df = fold insert_vendor (unique (map vendor_id df)) s"


definition zone_trips :: "trip list \<Rightarrow> string \<Rightarrow> trip list" where
  "zone_trips df zn = filter (\<lambda>r. pickup_zone r = Some zn \<or> dropoff_zone r = Some zn) df"

text \<open>\<open>ndarray.mean()\<close> of the flattened values; of no values it is 0/0.\<close>

definition np_mean :: "npfloat list \<Rightarrow> npfloat" where
  "np_mean xs = fl_div (foldl fl_add (Fin 0) xs) (Fin (real (length xs)))"

definition avg_lat :: "trip list \<Rightarrow> string \<Rightarrow> npfloat" where
  "avg_lat df zn =
     np_mean (concat (map (\<lambda>r. [pickup_latitude r, dropoff_latitude r]) (zone_trips df zn)))"

definition avg_lon :: "trip list \<Rightarrow> string \<Rightarrow> npfloat" where
  "avg_lon df zn =
     np_mean (concat (map (\<lambda>r. [pickup_longitude r, dropoff_longitude r]) (zone_trips df zn)))"

text \<open>
  \<open>INSERT INTO zones ... ON CONFLICT (zone_name) DO UPDATE SET latitude, longitude,
  trip_count\<close>: the row of that name keeps its key and takes the three new values.
\<close>

definition upsert_zone :: "string \<Rightarrow> npfloat \<Rightarrow> npfloat \<Rightarrow> nat \<Rightarrow> store \<Rightarrow> store" where
  "upsert_zone zn lat lon cnt s =
     (let pk = zones_seq s + 1;
          s' = s\<lparr>zones_seq := pk\<rparr>
      in if zn \<in> set (map zone_name (zones s))
         then s'\<lparr>zones := map (\<lambda>row. if zone_name row = zn
                                  then row\<lparr>latitude := lat, longitude := lon, trip_count := cnt\<rparr>
                                  else row) (zones s)\<rparr>
         else s'\<lparr>zones := zones s @
                [\<lparr>z_pk = pk, zone_name = zn, latitude = lat, longitude = lon, trip_count = cnt\<rparr>]\<rparr>)"

text \<open>
  \<open>DataProcessor.insert_zones\<close>. A Python set is iterated in an order the program does
  not fix, so the order is an argument: \<open>zone_order\<close> lists \<open>all_zones df\<close>.
\<close>

definition insert_zones :: "string list \<Rightarrow> store \<Rightarrow> trip list \<Rightarrow> store" where
  "insert_zones zone_order s df =
     fold (\<lambda>zn. upsert_zone zn (avg_lat df zn) (avg_lon df zn) (length (zone_trips df zn)))
       zone_order s"

text \<open>\<open>SELECT id FROM zones WHERE zone_name = %s\<close> and \<open>fetchone\<close>.\<close>

definition zone_id_of :: "store \<Rightarrow> string option \<Rightarrow> nat option" where
  "zone_id_of s z =
     (case z of
        None \<Rightarrow> None
      | Some zn \<Rightarrow> map_option z_pk (find (\<lambda>row. zone_name row = zn) (zones s)))"

definition db_row :: "trip \<Rightarrow> nat option \<Rightarrow> nat option \<Rightarrow> trip_row" where
  "db_row r pz dz =
     raw_trip.extend (raw_trip.truncate r)
       (trip_row.fields (trip_distance_km r) (trip_speed_kmh r) (fare_amount r) (fare_per_km r)
          pz dz)"

text \<open>\<open>INSERT INTO trips ... ON CONFLICT (id) DO NOTHING\<close>, after the two zone lookups.\<close>

definition insert_trip :: "trip \<Rightarrow> store \<Rightarrow> store" where
  "insert_trip r s =
     (let pickup_zone_id = zone_id_of s (pickup_zone r);
          dropoff_zone_id = zone_id_of s (dropoff_zone r)
      in if id_col r \<in> set (map id_col (trips s)) then s
         else s\<lparr>trips := trips s @ [db_row r pickup_zone_id dropoff_zone_id]\<rparr>)"

definition batch_size :: nat where "batch_size = 100"

text \<open>\<open>range(0, n, step)\<close> for a positive step.\<close>

definition range_step :: "nat \<Rightarrow> nat \<Rightarrow> nat list" where
  "range_step n step = map (\<lambda>k. k * step) [0..<(n + step - 1) div step]"

definition insert_trips :: "store \<Rightarrow> trip list \<Rightarrow> store" where
  "insert_trips s df =
     fold (\<lambda>i s. fold insert_trip (take batch_size (drop i df)) s)
       (range_step (length df) batch_size) s"


section \<open>The properties, in the words of the specification\<close>

text \<open>A float cell that is a finite number between two bounds.\<close>

definition fl_within :: "real \<Rightarrow> real \<Rightarrow> npfloat \<Rightarrow> bool" where
  "fl_within lo hi x = (case x of Fin v \<Rightarrow> lo \<le> v \<and> v \<le> hi | _ \<Rightarrow> False)"


text \<open>The identifiers of the cleaned output; a run that raises has no output.\<close>

definition cleaned_ids :: "error + trip list \<Rightarrow> string set" where
  "cleaned_ids res = (case res of Inl e \<Rightarrow> {} | Inr out \<Rightarrow> set (map id_col out))"


text \<open>
  The zones table has a row named \<open>zn\<close>, and every row of that name holds the given
  latitude, longitude and trip count.
\<close>

definition zone_holds :: "store \<Rightarrow> string \<Rightarrow> npfloat \<Rightarrow> npfloat \<Rightarrow> nat \<Rightarrow> bool" where
  "zone_holds s zn la lo c \<longleftrightarrow>
     zn \<in> set (map zone_name (zones s)) \<and>
     list_all (\<lambda>row. zone_name row \<noteq> zn \<or>
        (latitude row = la \<and> longitude row = lo \<and> trip_count row = c)) (zones s)"

text \<open>
  The mean latitude of a zone as the data model of the specification words it: over the
  pick-up coordinates labelled with the zone and the drop-off coordinates labelled with
  it.
\<close>

definition own_zone_mean_lat :: "trip list \<Rightarrow> string \<Rightarrow> npfloat" where
  "own_zone_mean_lat df zn =
     np_mean (map pickup_latitude (filter (\<lambda>r. pickup_zone r = Some zn) df)
              @ map dropoff_latitude (filter (\<lambda>r. dropoff_zone r = Some zn) df))"

section \<open>A sample batch\<close>

text \<open>
  Two trips along the meridian 74 W, an hour each: from 40.5 N to 40.7 N, and from
  40.6 N to 40.65 N.
\<close>

definition ex_t1 :: raw_trip where
  "ex_t1 = \<lparr>id_col = ''id1'', vendor_id = 1, pickup_datetime = Some 0, dropoff_datetime = Some 3600,
     passenger_count = 1, pickup_longitude = Fin (-74), pickup_latitude = Fin 40.5,
     dropoff_longitude = Fin (-74), dropoff_latitude = Fin 40.7,
     store_and_fwd_flag = ''N'', trip_duration = 3600\<rparr>"

definition ex_t2 :: raw_trip where
  "ex_t2 = \<lparr>id_col = ''id2'', vendor_id = 2, pickup_datetime = Some 100, dropoff_datetime = Some 3700,
     passenger_count = 2, pickup_longitude = Fin (-74), pickup_latitude = Fin 40.6,
     dropoff_longitude = Fin (-74), dropoff_latitude = Fin 40.65,
     store_and_fwd_flag = ''N'', trip_duration = 3600\<rparr>"

text \<open>The two cleaned records the pipeline makes of them.\<close>

definition ex_c1 :: trip where
  "ex_c1 = derive_row ex_t1 ''Zone_0_9'' ''Zone_19_9''"

definition ex_c2 :: trip where
  "ex_c2 = derive_row ex_t2 ''Zone_19_9'' ''Zone_0_9''"

text \<open>
  A second record with the identifier of the first, a record with no pick-up
  timestamp, and a record with no passenger.
\<close>

definition ex_dup :: raw_trip where
  "ex_dup = ex_t1\<lparr>passenger_count := 3\<rparr>"

definition ex_na :: raw_trip where
  "ex_na = ex_t2\<lparr>id_col := ''id3'', pickup_datetime := None\<rparr>"

definition ex_bad :: raw_trip where
  "ex_bad = ex_t2\<lparr>id_col := ''id4'', passenger_count := 0\<rparr>"

text \<open>The store after \<open>init_db\<close>, before any load.\<close>

definition empty_store :: store where
  "empty_store = \<lparr>vendors = [], vendors_seq = 0, zones = [], zones_seq = 0, trips = []\<rparr>"

section \<open>Lemmas\<close>

subsection \<open>Records\<close>

lemma truncate_derive_row: "raw_trip.truncate (derive_row r pz dz) = r"
  by (simp add: derive_row_def raw_trip.truncate_def raw_trip.extend_def)

subsection \<open>Deduplication\<close>

lemma ddf_subseq: "subseq (drop_duplicates_from key seen xs) xs"
  by (induction xs arbitrary: seen) auto

lemma ddf_keys: "set (map key (drop_duplicates_from key seen xs)) = set (map key xs) - set seen"
  by (induction xs arbitrary: seen) auto

lemma ddf_distinct: "distinct (map key (drop_duplicates_from key seen xs))"
  by (induction xs arbitrary: seen) (auto simp: ddf_keys[simplified])

lemma ddf_first:
  "r \<in> set (drop_duplicates_from key seen xs) \<Longrightarrow> find (\<lambda>s. key s = key r) xs = Some r"
proof (induction xs arbitrary: seen)
  case Nil
  then show ?case by simp
next
  case (Cons x xs)
  show ?case
  proof (cases "key x \<in> set seen")
    case True
    with Cons.prems have r: "r \<in> set (drop_duplicates_from key seen xs)" by simp
    from r have "key r \<in> set (map key (drop_duplicates_from key seen xs))" by force
    then have "key r \<notin> set seen" unfolding ddf_keys by simp
    with True have "key x \<noteq> key r" by auto
    with Cons.IH[OF r] show ?thesis by simp
  next
    case False
    with Cons.prems have "r = x \<or> r \<in> set (drop_duplicates_from key (key x # seen) xs)" by simp
    then show ?thesis
    proof
      assume "r = x" then show ?thesis by simp
    next
      assume r: "r \<in> set (drop_duplicates_from key (key x # seen) xs)"
      from r have "key r \<in> set (map key (drop_duplicates_from key (key x # seen) xs))" by force
      then have "key r \<noteq> key x" unfolding ddf_keys by auto
      with Cons.IH[OF r] show ?thesis by simp
    qed
  qed
qed

lemma clean_data_fst:
  "fst (clean_data ex df) =
     unmasked invalid_passengers (unmasked invalid_duration (unmasked invalid_coords
       (unmasked invalid_datetime (unmasked has_na (drop_duplicates id_col df)))))"
  by (simp add: clean_data_def Let_def)

subsection \<open>When \<open>create_zones\<close> returns\<close>

lemma pd_cut_length: "pd_cut x n = Inr ls \<Longrightarrow> length ls = length x"
  by (auto simp: pd_cut_def Let_def split: if_splits list.splits)

lemma pd_cut_nonempty: "pd_cut x n = Inr ls \<Longrightarrow> x \<noteq> []"
  by (auto simp: pd_cut_def split: if_splits)

lemma length_label_strs: "length (label_strs ls) = length ls"
  by (simp add: label_strs_def)

lemma create_zones_length:
  "create_zones lats lons = Inr zs \<Longrightarrow> length zs = min (length lats) (length lons)"
  by (auto simp: create_zones_def length_label_strs split: sum.splits dest!: pd_cut_length)

lemma create_zones_nonempty: "create_zones lats lons = Inr zs \<Longrightarrow> lats \<noteq> []"
  by (auto simp: create_zones_def split: sum.splits dest!: pd_cut_nonempty)

lemma pd_cut_total:
  assumes "x \<noteq> []" and "\<forall>v \<in> set x. \<exists>r. v = Fin r"
  shows "\<exists>ls. pd_cut x n = Inr ls"
proof -
  from assms obtain r xs where "x = Fin r # xs" by (cases x) auto
  moreover from assms(2) have "PosInf \<notin> set x" "NegInf \<notin> set x" by auto
  ultimately show ?thesis by (auto simp: pd_cut_def Let_def)
qed

lemma create_zones_total:
  assumes "lats \<noteq> []" "lons \<noteq> []"
    and "\<forall>v \<in> set lats. \<exists>r. v = Fin r" "\<forall>v \<in> set lons. \<exists>r. v = Fin r"
  shows "\<exists>zs. create_zones lats lons = Inr zs"
proof -
  from pd_cut_total[OF assms(1,3)] obtain a where a: "pd_cut lats 20 = Inr a" by blast
  from pd_cut_total[OF assms(2,4)] obtain b where b: "pd_cut lons 20 = Inr b" by blast
  show ?thesis by (simp add: create_zones_def a b)
qed

subsection \<open>The shape of the derived batch\<close>

lemma cdf_Inr:
  assumes "calculate_derived_features ex df = (Inr out, ex')"
  shows "\<exists>pzs dzs. length pzs = length (unmasked invalid_speed df) \<and>
           length dzs = length (unmasked invalid_speed df) \<and>
           create_zones (map pickup_latitude (unmasked invalid_speed df))
              (map pickup_longitude (unmasked invalid_speed df)) = Inr pzs \<and>
           create_zones (map dropoff_latitude (unmasked invalid_speed df))
              (map dropoff_longitude (unmasked invalid_speed df)) = Inr dzs \<and>
           out = map (\<lambda>(r, pz, dz). derive_row r pz dz) (zip (unmasked invalid_speed df) (zip pzs dzs))"
  using assms
  by (auto simp: calculate_derived_features_def Let_def split: sum.splits dest!: create_zones_length)

lemma cdf_ledger:
  "snd (calculate_derived_features ex df) = ex @ masked_ids invalid_speed df"
  by (auto simp: calculate_derived_features_def Let_def split: sum.splits)

lemma map_truncate_zip:
  "length pzs = length xs \<Longrightarrow> length dzs = length xs \<Longrightarrow>
   map raw_trip.truncate (map (\<lambda>(r, pz, dz). derive_row r pz dz) (zip xs (zip pzs dzs))) = xs"
proof (induction xs arbitrary: pzs dzs)
  case Nil then show ?case by simp
next
  case (Cons x xs)
  then obtain p ps d ds where "pzs = p # ps" "dzs = d # ds"
    by (cases pzs; cases dzs) auto
  with Cons show ?case by (simp add: truncate_derive_row)
qed

lemma cdf_truncate:
  assumes "calculate_derived_features ex df = (Inr out, ex')"
  shows "map raw_trip.truncate out = unmasked invalid_speed df"
proof -
  from cdf_Inr[OF assms] obtain pzs dzs where
    l: "length pzs = length (unmasked invalid_speed df)" "length dzs = length (unmasked invalid_speed df)"
    and out: "out = map (\<lambda>(r, pz, dz). derive_row r pz dz) (zip (unmasked invalid_speed df) (zip pzs dzs))"
    by blast
  show ?thesis unfolding out by (rule map_truncate_zip[OF l])
qed

lemma cdf_row:
  assumes "calculate_derived_features ex df = (Inr out, ex')" "c \<in> set out"
  shows "\<exists>r pz dz. c = derive_row r pz dz \<and> r \<in> set df \<and> \<not> invalid_speed r"
proof -
  from cdf_Inr[OF assms(1)] obtain pzs dzs where
    out: "out = map (\<lambda>(r, pz, dz). derive_row r pz dz) (zip (unmasked invalid_speed df) (zip pzs dzs))"
    by blast
  with assms(2) obtain r pz dz where "c = derive_row r pz dz"
    "(r, pz, dz) \<in> set (zip (unmasked invalid_speed df) (zip pzs dzs))" by auto
  then have "r \<in> set (unmasked invalid_speed df)" by (auto dest: set_zip_leftD)
  with \<open>c = derive_row r pz dz\<close> show ?thesis by (auto simp: unmasked_def)
qed

subsection \<open>Zones of the sample batch\<close>

lemma linspace21: "linspace a b 21 = map (\<lambda>i. a + real i * ((b - a) / 20)) [0..<21]"
  by (simp add: linspace_def)

lemma upt21: "[0..<21] = [0,1,2,3,4,5,6,7,8,9,10,11,12,13,14,15,16,17,18,19,20]"
  by (simp add: upt_rec)

lemma pd_cut_ex1: "pd_cut [Fin 40.5, Fin 40.6] 20 = Inr [Some 0, Some 19]"
  by (simp add: pd_cut_def nbins_to_bins_def linspace21 upt21 bin_label_def searchsorted_left_def Let_def)

lemma pd_cut_ex2: "pd_cut [Fin 40.7, Fin 40.65] 20 = Inr [Some 19, Some 0]"
  by (simp add: pd_cut_def nbins_to_bins_def linspace21 upt21 bin_label_def searchsorted_left_def Let_def)

lemma pd_cut_ex3: "pd_cut [Fin (-74), Fin (-74)] 20 = Inr [Some 9, Some 9]"
  by (simp add: pd_cut_def nbins_to_bins_def linspace21 upt21 bin_label_def searchsorted_left_def Let_def)

lemma str_nat_ex: "str_nat 0 = ''0''" "str_nat 9 = ''9''" "str_nat 19 = ''19''"
  by (simp_all add: str_nat.simps)

lemma create_zones_ex1:
  "create_zones [Fin 40.5, Fin 40.6] [Fin (-74), Fin (-74)] = Inr [''Zone_0_9'', ''Zone_19_9'']"
  unfolding create_zones_def pd_cut_ex1 pd_cut_ex3
  by (simp add: label_strs_def str_nat_ex)

lemma create_zones_ex2:
  "create_zones [Fin 40.7, Fin 40.65] [Fin (-74), Fin (-74)] = Inr [''Zone_19_9'', ''Zone_0_9'']"
  unfolding create_zones_def pd_cut_ex2 pd_cut_ex3
  by (simp add: label_strs_def str_nat_ex)

subsection \<open>The Haversine distance\<close>

lemma sin_half_diff_sq: "(sin ((x - y) / 2))\<^sup>2 = (sin ((y - x) / 2))\<^sup>2" for x y :: real
proof -
  have "(x - y) / 2 = - ((y - x) / 2)" by argo
  then have "sin ((x - y) / 2) = - sin ((y - x) / 2)" by (simp only: sin_minus)
  then show ?thesis by simp
qed

lemma haversine_identical:
  "haversine_distance (Fin la) (Fin lo) (Fin la) (Fin lo) = Fin 0"
  by (simp add: haversine_distance_def)

lemma haversine_sym:
  "haversine_distance la1 lo1 la2 lo2 = haversine_distance la2 lo2 la1 lo1"
proof (cases "\<exists>a b c d. la1 = Fin a \<and> lo1 = Fin b \<and> la2 = Fin c \<and> lo2 = Fin d")
  case True
  then obtain a b c d where e: "la1 = Fin a" "lo1 = Fin b" "la2 = Fin c" "lo2 = Fin d" by blast
  show ?thesis unfolding e haversine_distance_def by (simp add: sin_half_diff_sq[of "radians c" "radians a"] sin_half_diff_sq[of "radians d" "radians b"] mult.commute Let_def)
next
  case False
  then show ?thesis
    by (cases la1; cases lo1; cases la2; cases lo2) (simp_all add: haversine_distance_def)
qed







subsection \<open>Rows that pass \<open>clean_data\<close>\<close>

lemma derive_row_sel [simp]:
  "id_col (derive_row r pz dz) = id_col r"
  "vendor_id (derive_row r pz dz) = vendor_id r"
  "pickup_datetime (derive_row r pz dz) = pickup_datetime r"
  "dropoff_datetime (derive_row r pz dz) = dropoff_datetime r"
  "passenger_count (derive_row r pz dz) = passenger_count r"
  "pickup_longitude (derive_row r pz dz) = pickup_longitude r"
  "pickup_latitude (derive_row r pz dz) = pickup_latitude r"
  "dropoff_longitude (derive_row r pz dz) = dropoff_longitude r"
  "dropoff_latitude (derive_row r pz dz) = dropoff_latitude r"
  "store_and_fwd_flag (derive_row r pz dz) = store_and_fwd_flag r"
  "trip_duration (derive_row r pz dz) = trip_duration r"
  "trip_distance_km (derive_row r pz dz) = trip_distance r"
  "trip_speed_kmh (derive_row r pz dz) = trip_speed r"
  "fare_amount (derive_row r pz dz) = fare r"
  "fare_per_km (derive_row r pz dz) = fare_per_distance r"
  "pickup_zone (derive_row r pz dz) = Some pz"
  "dropoff_zone (derive_row r pz dz) = Some dz"
  by (simp_all add: derive_row_def raw_trip.extend_def trip.fields_def)

lemma set_drop_duplicates: "set (drop_duplicates key df) \<subseteq> set df"
  unfolding drop_duplicates_def using ddf_subseq[of key "[]" df]
  by (metis set_nths_subset subseq_conv_nths)

lemma clean_data_row:
  assumes "r \<in> set (fst (clean_data ex df))"
  shows "r \<in> set df" "\<not> has_na r" "\<not> invalid_datetime r" "\<not> invalid_coords r"
    "\<not> invalid_duration r" "\<not> invalid_passengers r"
  using assms set_drop_duplicates[of id_col df]
  by (auto simp: clean_data_fst unmasked_def)

lemma fl_within_from_filter:
  "x \<noteq> NaN \<Longrightarrow> \<not> fl_lt x lo \<Longrightarrow> \<not> fl_gt x hi \<Longrightarrow> fl_within lo hi x"
  by (cases x) (auto simp: fl_within_def)

lemma fl_withinD: "fl_within lo hi x \<Longrightarrow> \<exists>v. x = Fin v \<and> lo \<le> v \<and> v \<le> hi"
  by (cases x) (auto simp: fl_within_def)

text \<open>A row that passed \<open>clean_data\<close>: its coordinates are finite and in the box.\<close>

lemma clean_data_coords:
  assumes "r \<in> set (fst (clean_data ex df))"
  shows "fl_within lat_min lat_max (pickup_latitude r)"
    "fl_within lon_min lon_max (pickup_longitude r)"
    "fl_within lat_min lat_max (dropoff_latitude r)"
    "fl_within lon_min lon_max (dropoff_longitude r)"
  using clean_data_row(2,4)[OF assms]
  by (auto simp: has_na_def invalid_coords_def intro!: fl_within_from_filter)




subsection \<open>The sample batch through the pipeline\<close>

lemma haversine_same_lon:
  assumes "la1 \<le> la2" "la2 - la1 \<le> 180"
  shows "haversine_distance (Fin la1) (Fin lo) (Fin la2) (Fin lo)
           = Fin (6371 * (radians la2 - radians la1))"
proof -
  define h where "h = (radians la2 - radians la1) / 2"
  have h0: "0 \<le> h" using assms(1) pi_gt_zero
    by (simp add: h_def radians_def divide_right_mono mult_right_mono)
  have "(la2 - la1) * pi \<le> 180 * pi" using assms(2) pi_gt_zero
    by (simp only: mult_le_cancel_right_pos)
  then have h1: "h \<le> pi / 2"
    by (simp add: h_def radians_def field_simps)
  from h0 h1 have s0: "0 \<le> sin h" by (intro sin_ge_zero) auto
  have s1: "(sin h)\<^sup>2 \<le> 1" by (simp add: abs_square_le_1)
  have "arcsin (sqrt ((sin h)\<^sup>2)) = h"
    using s0 h0 h1 by (simp add: arcsin_sin)
  then show ?thesis
    using s1 by (simp add: haversine_distance_def Let_def h_def[symmetric] not_less) (simp add: h_def)
qed

lemma ex_distance:
  "trip_distance ex_t1 = Fin (6371 * (radians 40.7 - radians 40.5))"
  "trip_distance ex_t2 = Fin (6371 * (radians 40.65 - radians 40.6))"
  unfolding trip_distance_def ex_t1_def ex_t2_def
  by (simp_all add: haversine_same_lon)

lemma ex_distance_bounds:
  "radians 40.7 - radians 40.5 = pi / 900" "radians 40.65 - radians 40.6 = pi / 3600"
  by (simp_all add: radians_def field_simps)

lemma ex_speed:
  "trip_speed ex_t1 = Fin (6371 * pi / 900)"
  "trip_speed ex_t2 = Fin (6371 * pi / 3600)"
  unfolding trip_speed_def ex_distance ex_distance_bounds
  by (simp_all add: ex_t1_def ex_t2_def)

lemma ex_valid_speed: "\<not> invalid_speed ex_t1" "\<not> invalid_speed ex_t2"
  unfolding invalid_speed_def ex_speed using pi_ge_two pi_less_4
  by (simp_all add: field_simps)

lemma ex_clean_data: "clean_data [] [ex_t1, ex_t2] = ([ex_t1, ex_t2], [])"
  by (simp add: clean_data_def drop_duplicates_def unmasked_def masked_ids_def has_na_def
      invalid_datetime_def invalid_coords_def invalid_duration_def invalid_passengers_def
      lat_min_def lat_max_def lon_min_def lon_max_def ex_t1_def ex_t2_def)

lemma ex_columns:
  "map pickup_latitude [ex_t1, ex_t2] = [Fin 40.5, Fin 40.6]"
  "map pickup_longitude [ex_t1, ex_t2] = [Fin (-74), Fin (-74)]"
  "map dropoff_latitude [ex_t1, ex_t2] = [Fin 40.7, Fin 40.65]"
  "map dropoff_longitude [ex_t1, ex_t2] = [Fin (-74), Fin (-74)]"
  unfolding ex_t1_def ex_t2_def list.map raw_trip.select_convs by (rule refl)+

lemma ex_features:
  "calculate_derived_features [] [ex_t1, ex_t2] = (Inr [ex_c1, ex_c2], [])"
proof -
  have u: "unmasked invalid_speed [ex_t1, ex_t2] = [ex_t1, ex_t2]"
    "masked_ids invalid_speed [ex_t1, ex_t2] = []"
    by (simp_all add: unmasked_def masked_ids_def ex_valid_speed)
  show ?thesis
    unfolding calculate_derived_features_def Let_def u ex_columns create_zones_ex1 create_zones_ex2
    by (simp add: ex_c1_def ex_c2_def)
qed

lemma ex_clean_run: "clean_run [] [ex_t1, ex_t2] = (Inr [ex_c1, ex_c2], [])"
  by (simp add: clean_run_def ex_clean_data ex_features)



subsection \<open>Identifiers and order\<close>

lemma drop_duplicates_props:
  "subseq (drop_duplicates key df) df"
  "distinct (map key (drop_duplicates key df))"
  "set (map key (drop_duplicates key df)) = set (map key df)"
  "r \<in> set (drop_duplicates key df) \<Longrightarrow> find (\<lambda>s. key s = key r) df = Some r"
  unfolding drop_duplicates_def
  using ddf_subseq[of key "[]" df] ddf_distinct[of key "[]" df] ddf_keys[of key "[]" df]
    ddf_first[of r key "[]" df]
  by simp_all

lemma clean_data_subseq_dedup:
  "subseq (fst (clean_data ex df)) (drop_duplicates id_col df)"
  unfolding clean_data_fst unmasked_def
  by (meson subseq_filter_left subseq_order.trans)

lemma clean_data_subseq: "subseq (fst (clean_data ex df)) df"
  using clean_data_subseq_dedup drop_duplicates_props(1) subseq_order.trans by blast

lemma subseq_distinct_map: "subseq xs ys \<Longrightarrow> distinct (map f ys) \<Longrightarrow> distinct (map f xs)"
  using subseq_map[of xs ys f] by (metis distinct_nthsI subseq_conv_nths)

lemma subseq_set: "subseq xs ys \<Longrightarrow> set xs \<subseteq> set ys"
  by (metis set_nths_subset subseq_conv_nths)

lemma clean_data_distinct: "distinct (map id_col (fst (clean_data ex df)))"
  using subseq_distinct_map[OF clean_data_subseq_dedup drop_duplicates_props(2)] .

lemma clean_data_first:
  "r \<in> set (fst (clean_data ex df)) \<Longrightarrow> find (\<lambda>s. id_col s = id_col r) df = Some r"
  using subseq_set[OF clean_data_subseq_dedup] drop_duplicates_props(4)[of r id_col df] by blast

lemma first_occurrence_kept:
  assumes "r \<in> set df"
  shows "\<exists>k. k \<in> set (drop_duplicates id_col df) \<and> id_col k = id_col r \<and>
             find (\<lambda>s. id_col s = id_col r) df = Some k"
proof -
  from assms have "id_col r \<in> set (map id_col (drop_duplicates id_col df))"
    unfolding drop_duplicates_props(3) by simp
  then obtain k where k: "k \<in> set (drop_duplicates id_col df)" "id_col k = id_col r" by auto
  from drop_duplicates_props(4)[OF k(1)] k show ?thesis by auto
qed

lemma clean_run_truncate:
  assumes "clean_run ex df = (Inr out, ex')"
  shows "map raw_trip.truncate out = unmasked invalid_speed (fst (clean_data ex df))"
  using assms cdf_truncate[of "snd (clean_data ex df)" "fst (clean_data ex df)" out ex']
  by (auto simp: clean_run_def split: prod.splits)

lemma id_col_truncate: "id_col (raw_trip.truncate c) = id_col c"
  by (simp add: raw_trip.truncate_def)

lemma map_id_truncate: "map id_col (map raw_trip.truncate out) = map id_col out"
  by (simp add: id_col_truncate)

lemma ex_clean_data_dup: "clean_data [] [ex_t1, ex_dup, ex_t2] = ([ex_t1, ex_t2], [])"
  by (simp add: clean_data_def drop_duplicates_def unmasked_def masked_ids_def has_na_def
      invalid_datetime_def invalid_coords_def invalid_duration_def invalid_passengers_def
      lat_min_def lat_max_def lon_min_def lon_max_def ex_t1_def ex_t2_def ex_dup_def)

lemma ex_clean_data_na: "clean_data [] [ex_t1, ex_t2, ex_na] = ([ex_t1, ex_t2], [])"
  by (simp add: clean_data_def drop_duplicates_def unmasked_def masked_ids_def has_na_def
      invalid_datetime_def invalid_coords_def invalid_duration_def invalid_passengers_def
      lat_min_def lat_max_def lon_min_def lon_max_def ex_t1_def ex_t2_def ex_na_def)

lemma ex_ids: "id_col ex_t1 = ''id1''" "id_col ex_t2 = ''id2''" "id_col ex_dup = ''id1''"
  "id_col ex_na = ''id3''" "id_col ex_c1 = ''id1''" "id_col ex_c2 = ''id2''"
  by (simp_all add: ex_t1_def ex_t2_def ex_dup_def ex_na_def ex_c1_def ex_c2_def)

lemma ex_dup_differs: "ex_dup \<noteq> ex_t1"
  by (simp add: ex_dup_def ex_t1_def)

lemma ex_truncate: "raw_trip.truncate ex_c1 = ex_t1" "raw_trip.truncate ex_c2 = ex_t2"
  by (simp_all add: ex_c1_def ex_c2_def truncate_derive_row)

subsection \<open>The ledger\<close>

lemma masked_ids_partition:
  assumes "distinct (map id_col xs)"
  shows "set (masked_ids P xs) = set (map id_col xs) - set (map id_col (unmasked P xs))"
proof -
  have "\<And>x y. x \<in> set xs \<Longrightarrow> y \<in> set xs \<Longrightarrow> id_col x = id_col y \<Longrightarrow> x = y"
    using assms by (meson distinct_map inj_onD)
  then show ?thesis unfolding masked_ids_def unmasked_def by auto
qed

lemma unmasked_distinct: "distinct (map id_col xs) \<Longrightarrow> distinct (map id_col (unmasked P xs))"
  unfolding unmasked_def by (simp add: distinct_map_filter)

lemma unmasked_ids_subset: "set (map id_col (unmasked P xs)) \<subseteq> set (map id_col xs)"
  unfolding unmasked_def by auto

lemma ledger_step:
  assumes "distinct (map id_col xs)" "set acc = A - set (map id_col xs)"
    "set (map id_col xs) \<subseteq> A"
  shows "set (acc @ masked_ids P xs) = A - set (map id_col (unmasked P xs))"
  using assms unmasked_ids_subset[of P xs]
  unfolding set_append masked_ids_partition[OF assms(1)] by blast

lemma clean_data_ledger:
  "\<exists>app. snd (clean_data ex df) = ex @ app \<and>
     set app = set (map id_col (unmasked has_na (drop_duplicates id_col df)))
               - set (map id_col (fst (clean_data ex df)))"
proof -
  define X1 where "X1 = unmasked has_na (drop_duplicates id_col df)"
  define X2 where "X2 = unmasked invalid_datetime X1"
  define X3 where "X3 = unmasked invalid_coords X2"
  define X4 where "X4 = unmasked invalid_duration X3"
  define X5 where "X5 = unmasked invalid_passengers X4"
  define A where "A = set (map id_col X1)"
  have d1: "distinct (map id_col X1)"
    unfolding X1_def by (intro unmasked_distinct drop_duplicates_props(2))
  then have d2: "distinct (map id_col X2)" unfolding X2_def by (rule unmasked_distinct)
  then have d3: "distinct (map id_col X3)" unfolding X3_def by (rule unmasked_distinct)
  then have d4: "distinct (map id_col X4)" unfolding X4_def by (rule unmasked_distinct)
  have s2: "set (map id_col X2) \<subseteq> A" unfolding X2_def A_def by (rule unmasked_ids_subset)
  have s3: "set (map id_col X3) \<subseteq> A" using s2 unmasked_ids_subset[of invalid_coords X2]
    unfolding X3_def by blast
  have s4: "set (map id_col X4) \<subseteq> A" using s3 unmasked_ids_subset[of invalid_duration X3]
    unfolding X4_def by blast
  have l2: "set ([] @ masked_ids invalid_datetime X1) = A - set (map id_col X2)"
    unfolding X2_def by (rule ledger_step[OF d1]) (simp_all add: A_def)
  have l3: "set (([] @ masked_ids invalid_datetime X1) @ masked_ids invalid_coords X2)
              = A - set (map id_col X3)"
    unfolding X3_def by (rule ledger_step[OF d2 l2 s2])
  have l4: "set ((([] @ masked_ids invalid_datetime X1) @ masked_ids invalid_coords X2)
              @ masked_ids invalid_duration X3) = A - set (map id_col X4)"
    unfolding X4_def by (rule ledger_step[OF d3 l3 s3])
  have l5: "set (((([] @ masked_ids invalid_datetime X1) @ masked_ids invalid_coords X2)
              @ masked_ids invalid_duration X3) @ masked_ids invalid_passengers X4)
              = A - set (map id_col X5)"
    unfolding X5_def by (rule ledger_step[OF d4 l4 s4])
  have f: "fst (clean_data ex df) = X5"
    by (simp add: clean_data_fst X1_def X2_def X3_def X4_def X5_def)
  have s: "snd (clean_data ex df) = ex @ (((([] @ masked_ids invalid_datetime X1)
              @ masked_ids invalid_coords X2) @ masked_ids invalid_duration X3)
              @ masked_ids invalid_passengers X4)"
    by (simp add: clean_data_def Let_def X1_def X2_def X3_def X4_def)
  show ?thesis unfolding f using s l5 unfolding A_def X1_def[symmetric] by blast
qed

lemma cdf_total:
  assumes ne: "unmasked invalid_speed df \<noteq> []"
    and fin: "\<forall>r \<in> set df. (\<exists>v. pickup_latitude r = Fin v) \<and> (\<exists>v. pickup_longitude r = Fin v) \<and>
                (\<exists>v. dropoff_latitude r = Fin v) \<and> (\<exists>v. dropoff_longitude r = Fin v)"
  shows "\<exists>out. fst (calculate_derived_features ex df) = Inr out"
proof -
  define U where "U = unmasked invalid_speed df"
  have sub: "set U \<subseteq> set df" unfolding U_def unmasked_def by auto
  have ne': "U \<noteq> []" using ne unfolding U_def .
  have "\<exists>zs. create_zones (map pickup_latitude U) (map pickup_longitude U) = Inr zs"
    using ne' sub fin by (intro create_zones_total) auto
  then obtain pzs where p: "create_zones (map pickup_latitude U) (map pickup_longitude U) = Inr pzs" ..
  have "\<exists>zs. create_zones (map dropoff_latitude U) (map dropoff_longitude U) = Inr zs"
    using ne' sub fin by (intro create_zones_total) auto
  then obtain dzs where d: "create_zones (map dropoff_latitude U) (map dropoff_longitude U) = Inr dzs" ..
  show ?thesis
    unfolding calculate_derived_features_def Let_def U_def[symmetric] by (simp add: p d)
qed

lemma clean_data_finite_coords:
  "\<forall>r \<in> set (fst (clean_data ex df)).
      (\<exists>v. pickup_latitude r = Fin v) \<and> (\<exists>v. pickup_longitude r = Fin v) \<and>
      (\<exists>v. dropoff_latitude r = Fin v) \<and> (\<exists>v. dropoff_longitude r = Fin v)"
  using clean_data_coords by (blast dest: fl_withinD)

lemma clean_run_alt:
  "clean_run ex df = calculate_derived_features (snd (clean_data ex df)) (fst (clean_data ex df))"
  by (simp add: clean_run_def split: prod.splits)

text \<open>The cleaning run returns a batch exactly when a row passes every filter.\<close>

lemma clean_run_returns:
  "(\<exists>out. fst (clean_run ex df) = Inr out) \<longleftrightarrow>
     unmasked invalid_speed (fst (clean_data ex df)) \<noteq> []"
proof
  assume "\<exists>out. fst (clean_run ex df) = Inr out"
  then obtain out where "fst (clean_run ex df) = Inr out" ..
  then have "clean_run ex df = (Inr out, snd (clean_run ex df))" by (metis prod.collapse)
  from clean_run_truncate[OF this] cdf_Inr[of "snd (clean_data ex df)" "fst (clean_data ex df)" out]
    this
  show "unmasked invalid_speed (fst (clean_data ex df)) \<noteq> []"
    by (auto simp: clean_run_def split: prod.splits dest: create_zones_nonempty)
next
  assume "unmasked invalid_speed (fst (clean_data ex df)) \<noteq> []"
  from cdf_total[OF this clean_data_finite_coords, of "snd (clean_data ex df)"]
  show "\<exists>out. fst (clean_run ex df) = Inr out"
    by (simp add: clean_run_alt)
qed

lemma clean_run_ledger_eq:
  "snd (clean_run ex df) =
     snd (clean_data ex df) @ masked_ids invalid_speed (fst (clean_data ex df))"
  by (simp add: clean_run_def cdf_ledger split: prod.splits)

lemma cleaned_ids_clean_run:
  "cleaned_ids (fst (clean_run ex df)) =
     set (map id_col (unmasked invalid_speed (fst (clean_data ex df))))"
proof (cases "fst (clean_run ex df)")
  case (Inl e)
  with clean_run_returns[of ex df] have "unmasked invalid_speed (fst (clean_data ex df)) = []"
    by auto
  with Inl show ?thesis by (simp add: cleaned_ids_def)
next
  case (Inr out)
  then have "clean_run ex df = (Inr out, snd (clean_run ex df))" by (metis prod.collapse)
  from clean_run_truncate[OF this] have
    "map id_col (map raw_trip.truncate out)
       = map id_col (unmasked invalid_speed (fst (clean_data ex df)))" by simp
  then show ?thesis unfolding map_id_truncate by (simp add: Inr cleaned_ids_def)
qed

lemma ex_clean_data_bad: "clean_data [] [ex_t1, ex_t2, ex_bad] = ([ex_t1, ex_t2], [''id4''])"
  by (simp add: clean_data_def drop_duplicates_def unmasked_def masked_ids_def has_na_def
      invalid_datetime_def invalid_coords_def invalid_duration_def invalid_passengers_def
      lat_min_def lat_max_def lon_min_def lon_max_def ex_t1_def ex_t2_def ex_bad_def)

lemma ex_features_led:
  "calculate_derived_features led [ex_t1, ex_t2] = (Inr [ex_c1, ex_c2], led)"
proof -
  have u: "unmasked invalid_speed [ex_t1, ex_t2] = [ex_t1, ex_t2]"
    "masked_ids invalid_speed [ex_t1, ex_t2] = []"
    by (simp_all add: unmasked_def masked_ids_def ex_valid_speed)
  show ?thesis
    unfolding calculate_derived_features_def Let_def u ex_columns create_zones_ex1 create_zones_ex2
    by (simp add: ex_c1_def ex_c2_def)
qed

lemma ex_clean_run_bad:
  "clean_run [] [ex_t1, ex_t2, ex_bad] = (Inr [ex_c1, ex_c2], [''id4''])"
  by (simp add: clean_run_def ex_clean_data_bad ex_features_led)

lemma ex_clean_run_na:
  "clean_run [] [ex_t1, ex_t2, ex_na] = (Inr [ex_c1, ex_c2], [])"
  by (simp add: clean_run_def ex_clean_data_na ex_features_led)

lemma ex_clean_run_dup:
  "clean_run [] [ex_t1, ex_dup, ex_t2] = (Inr [ex_c1, ex_c2], [])"
  by (simp add: clean_run_def ex_clean_data_dup ex_features_led)

lemma ex_has_na: "\<not> has_na ex_t1" "\<not> has_na ex_t2" "\<not> has_na ex_bad" "has_na ex_na"
  by (simp_all add: has_na_def ex_t1_def ex_t2_def ex_bad_def ex_na_def)

subsection \<open>Equal-width bins\<close>















subsection \<open>The loader\<close>

lemma concat_batches:
  "concat (map (\<lambda>k. take b (drop (k * b) xs)) [0..<m]) = take (m * b) xs"
proof (induction m)
  case 0
  then show ?case by simp
next
  case (Suc m)
  have "take (m * b + b) xs = take (m * b) xs @ take b (drop (m * b) xs)"
    by (simp add: take_add)
  with Suc show ?case by (simp add: add.commute)
qed

lemma fold_batches:
  "fold (\<lambda>i s. fold f (take b (drop i xs)) s) (map (\<lambda>k. k * b) ks) s
     = fold f (concat (map (\<lambda>k. take b (drop (k * b) xs)) ks)) s"
  by (induction ks arbitrary: s) simp_all

lemma range_covers:
  fixes n b :: nat
  assumes "0 < b"
  shows "n \<le> ((n + b - 1) div b) * b"
proof -
  have "(n + b - 1) div b * b + (n + b - 1) mod b = n + b - 1" by (rule div_mult_mod_eq)
  moreover have "(n + b - 1) mod b < b" using assms by (rule mod_less_divisor)
  ultimately show ?thesis by linarith
qed

lemma insert_trips_fold: "insert_trips s df = fold insert_trip df s"
proof -
  have "length df \<le> ((length df + batch_size - 1) div batch_size) * batch_size"
    by (rule range_covers) (simp add: batch_size_def)
  then have "take (((length df + batch_size - 1) div batch_size) * batch_size) df = df"
    by simp
  then show ?thesis
    unfolding insert_trips_def range_step_def fold_batches concat_batches by simp
qed


lemma db_row_id [simp]: "id_col (db_row r pz dz) = id_col r"
  by (simp add: db_row_def raw_trip.extend_def raw_trip.truncate_def)


lemma insert_trip_other [simp]:
  "vendors (insert_trip r s) = vendors s" "zones (insert_trip r s) = zones s"
  "vendors_seq (insert_trip r s) = vendors_seq s" "zones_seq (insert_trip r s) = zones_seq s"
  by (simp_all add: insert_trip_def Let_def)


lemma fold_insert_trip_other [simp]:
  "vendors (fold insert_trip df s) = vendors s" "zones (fold insert_trip df s) = zones s"
  by (induction df arbitrary: s) simp_all


lemma insert_vendor_other [simp]:
  "trips (insert_vendor v s) = trips s" "zones (insert_vendor v s) = zones s"
  "zones_seq (insert_vendor v s) = zones_seq s"
  by (simp_all add: insert_vendor_def Let_def)



lemma fold_insert_vendor_other [simp]:
  "trips (fold insert_vendor vs s) = trips s" "zones (fold insert_vendor vs s) = zones s"
  "zones_seq (fold insert_vendor vs s) = zones_seq s"
  by (induction vs arbitrary: s) simp_all




lemma upsert_zone_other [simp]:
  "trips (upsert_zone zn la lo c s) = trips s" "vendors (upsert_zone zn la lo c s) = vendors s"
  "vendors_seq (upsert_zone zn la lo c s) = vendors_seq s"
  by (simp_all add: upsert_zone_def Let_def)

lemma insert_zones_other [simp]:
  "trips (insert_zones zs s df) = trips s" "vendors (insert_zones zs s df) = vendors s"
  unfolding insert_zones_def by (induction zs arbitrary: s) simp_all

lemma insert_vendors_other [simp]:
  "trips (insert_vendors s df) = trips s" "zones (insert_vendors s df) = zones s"
  by (simp_all add: insert_vendors_def)

lemma insert_trips_other [simp]:
  "vendors (insert_trips s df) = vendors s" "zones (insert_trips s df) = zones s"
  by (simp_all add: insert_trips_fold)

lemma map_zone_name_update:
  "map zone_name (map (\<lambda>row. if zone_name row = zn
       then row\<lparr>latitude := la, longitude := lo, trip_count := c\<rparr> else row) rows)
     = map zone_name rows"
  by (induction rows) auto

lemma upsert_zone_names:
  "set (map zone_name (zones (upsert_zone zn la lo c s))) = insert zn (set (map zone_name (zones s)))"
proof (cases "zn \<in> set (map zone_name (zones s))")
  case True
  then have "zones (upsert_zone zn la lo c s) = map (\<lambda>row. if zone_name row = zn
       then row\<lparr>latitude := la, longitude := lo, trip_count := c\<rparr> else row) (zones s)"
    by (simp add: upsert_zone_def Let_def)
  then show ?thesis using True by (simp only: map_zone_name_update) auto
next
  case False
  then show ?thesis by (simp add: upsert_zone_def Let_def)
qed

lemma zone_holds_upsert_same: "zone_holds (upsert_zone zn la lo c s) zn la lo c"
proof -
  have "zn \<in> set (map zone_name (zones (upsert_zone zn la lo c s)))"
    unfolding upsert_zone_names by simp
  moreover have "list_all (\<lambda>row. zone_name row \<noteq> zn \<or>
        (latitude row = la \<and> longitude row = lo \<and> trip_count row = c))
      (zones (upsert_zone zn la lo c s))"
    by (auto simp: upsert_zone_def Let_def list_all_iff)
  ultimately show ?thesis unfolding zone_holds_def by blast
qed

lemma zone_holds_upsert_other:
  assumes "zn' \<noteq> zn" "zone_holds s zn la lo c"
  shows "zone_holds (upsert_zone zn' la' lo' c' s) zn la lo c"
proof -
  have "zn \<in> set (map zone_name (zones (upsert_zone zn' la' lo' c' s)))"
    unfolding upsert_zone_names using assms(2) by (simp add: zone_holds_def)
  moreover have "list_all (\<lambda>row. zone_name row \<noteq> zn \<or>
        (latitude row = la \<and> longitude row = lo \<and> trip_count row = c))
      (zones (upsert_zone zn' la' lo' c' s))"
    using assms by (auto simp: upsert_zone_def Let_def list_all_iff zone_holds_def)
  ultimately show ?thesis unfolding zone_holds_def by blast
qed


lemma zone_holds_find:
  assumes "zone_holds s zn la lo c"
  shows "\<exists>row. find (\<lambda>row. zone_name row = zn) (zones s) = Some row \<and>
           latitude row = la \<and> longitude row = lo \<and> trip_count row = c"
proof -
  from assms have "\<exists>row \<in> set (zones s). zone_name row = zn" by (auto simp: zone_holds_def)
  then obtain row where f: "find (\<lambda>row. zone_name row = zn) (zones s) = Some row"
    by (cases "find (\<lambda>row. zone_name row = zn) (zones s)") (auto simp: find_None_iff)
  then have "row \<in> set (zones s)" "zone_name row = zn"
    by (auto simp: find_Some_iff)
  with assms f show ?thesis by (auto simp: zone_holds_def list_all_iff)
qed


lemma fold_upsert_holds:
  assumes "zn \<in> set order \<or> zone_holds s zn (f1 zn) (f2 zn) (f3 zn)"
  shows "zone_holds (fold (\<lambda>z. upsert_zone z (f1 z) (f2 z) (f3 z)) order s) zn (f1 zn) (f2 zn) (f3 zn)"
  using assms
proof (induction order arbitrary: s)
  case Nil
  then show ?case by simp
next
  case (Cons z order)
  have "zone_holds (upsert_zone z (f1 z) (f2 z) (f3 z) s) zn (f1 zn) (f2 zn) (f3 zn) \<or> zn \<in> set order"
  proof (cases "z = zn")
    case True
    then show ?thesis using zone_holds_upsert_same[of zn "f1 zn" "f2 zn" "f3 zn" s] by simp
  next
    case False
    with Cons.prems show ?thesis by (auto intro: zone_holds_upsert_other)
  qed
  then show ?case using Cons.IH[of "upsert_zone z (f1 z) (f2 z) (f3 z) s"] by auto
qed


lemma insert_zones_holds:
  "zn \<in> set zone_order \<Longrightarrow>
   zone_holds (insert_zones zone_order s df) zn (avg_lat df zn) (avg_lon df zn) (length (zone_trips df zn))"
  unfolding insert_zones_def
  using fold_upsert_holds[of zn zone_order s "avg_lat df" "avg_lon df" "\<lambda>z. length (zone_trips df z)"]
  by simp


subsection \<open>The sample batch through the loader\<close>

lemma upsert_zone_zones:
  "zones (upsert_zone zn la lo c s) =
     (if zn \<in> set (map zone_name (zones s))
      then map (\<lambda>row. if zone_name row = zn
                      then row\<lparr>latitude := la, longitude := lo, trip_count := c\<rparr>
                      else row) (zones s)
      else zones s @ [\<lparr>z_pk = zones_seq s + 1, zone_name = zn, latitude = la, longitude = lo,
                       trip_count = c\<rparr>])"
  "zones_seq (upsert_zone zn la lo c s) = zones_seq s + 1"
  by (simp_all add: upsert_zone_def Let_def)

lemma ex_c_fields:
  "pickup_zone ex_c1 = Some ''Zone_0_9''" "dropoff_zone ex_c1 = Some ''Zone_19_9''"
  "pickup_zone ex_c2 = Some ''Zone_19_9''" "dropoff_zone ex_c2 = Some ''Zone_0_9''"
  "pickup_latitude ex_c1 = Fin 40.5" "dropoff_latitude ex_c1 = Fin 40.7"
  "pickup_latitude ex_c2 = Fin 40.6" "dropoff_latitude ex_c2 = Fin 40.65"
  "pickup_longitude ex_c1 = Fin (-74)" "dropoff_longitude ex_c1 = Fin (-74)"
  "pickup_longitude ex_c2 = Fin (-74)" "dropoff_longitude ex_c2 = Fin (-74)"
  "vendor_id ex_c1 = 1" "vendor_id ex_c2 = 2"
  by (simp_all add: ex_c1_def ex_c2_def ex_t1_def ex_t2_def)

lemma ex_zone_trips:
  "zone_trips [ex_c1, ex_c2] ''Zone_0_9'' = [ex_c1, ex_c2]"
  "zone_trips [ex_c1, ex_c2] ''Zone_19_9'' = [ex_c1, ex_c2]"
  by (simp_all add: zone_trips_def ex_c_fields)

lemma ex_avg:
  "avg_lat [ex_c1, ex_c2] ''Zone_0_9'' = Fin (3249 / 80)"
  "avg_lon [ex_c1, ex_c2] ''Zone_0_9'' = Fin (-74)"
  by (simp_all add: avg_lat_def avg_lon_def ex_zone_trips np_mean_def ex_c_fields)

lemma ex_own_mean: "own_zone_mean_lat [ex_c1, ex_c2] ''Zone_0_9'' = Fin (1623 / 40)"
  by (simp add: own_zone_mean_lat_def np_mean_def ex_c_fields)


lemma insert_vendors_zones_seq [simp]: "zones_seq (insert_vendors s df) = zones_seq s"
  by (simp add: insert_vendors_def)




section \<open>The claims\<close>



text \<open>
  C2, as amended. The identifiers appended to the ledger during a cleaning run are those
  of the rows that the five validity filters remove: the rows that are left after the
  deduplication and the missing-value step and are not in the cleaned output (a run
  that raises has no output). So, for a batch in which no record lacks a required
  field, the identifiers of the input that are absent from the cleaned output are
  exactly the identifiers appended during the run.
\<close>

theorem ledger_holds_filtered_ids:
  assumes "clean_run ex df = (res, ex')"
  shows "\<exists>app. ex' = ex @ app \<and>
           set app = set (map id_col (unmasked has_na (drop_duplicates id_col df))) - cleaned_ids res \<and>
           ((\<forall>r \<in> set df. \<not> has_na r) \<longrightarrow>
              set app = set (map id_col df) - cleaned_ids res)"
proof -
  define A where "A = set (map id_col (unmasked has_na (drop_duplicates id_col df)))"
  from clean_data_ledger[of ex df] obtain app1 where
    s: "snd (clean_data ex df) = ex @ app1"
    and a: "set app1 = A - set (map id_col (fst (clean_data ex df)))"
    unfolding A_def by blast
  define app where "app = app1 @ masked_ids invalid_speed (fst (clean_data ex df))"
  have sub: "set (map id_col (fst (clean_data ex df))) \<subseteq> A"
    unfolding A_def clean_data_fst
    using unmasked_ids_subset
    by (meson order_trans)
  have res: "cleaned_ids res = set (map id_col (unmasked invalid_speed (fst (clean_data ex df))))"
    using cleaned_ids_clean_run[of ex df] assms by simp
  have 1: "ex' = ex @ app"
    using clean_run_ledger_eq[of ex df] assms by (simp add: s app_def)
  have 2: "set app = A - cleaned_ids res"
    unfolding app_def res by (rule ledger_step[OF clean_data_distinct a sub])
  have 3: "(\<forall>r \<in> set df. \<not> has_na r) \<longrightarrow> set app = set (map id_col df) - cleaned_ids res"
  proof
    assume "\<forall>r \<in> set df. \<not> has_na r"
    then have "\<forall>r \<in> set (drop_duplicates id_col df). \<not> has_na r"
      using set_drop_duplicates[of id_col df] by blast
    then have "unmasked has_na (drop_duplicates id_col df) = drop_duplicates id_col df"
      by (simp add: unmasked_def)
    then have "A = set (map id_col df)"
      unfolding A_def by (simp only: drop_duplicates_props(3))
    with 2 show "set app = set (map id_col df) - cleaned_ids res" by simp
  qed
  from 1 2 3 show ?thesis unfolding A_def by blast
qed

theorem ledger_holds_filtered_ids_witness:
  "clean_run [] [ex_t1, ex_t2, ex_bad] = (Inr [ex_c1, ex_c2], [''id4'']) \<and>
   \<not> has_na ex_t1 \<and> \<not> has_na ex_t2 \<and> \<not> has_na ex_bad \<and>
   set [''id4''] = set (map id_col [ex_t1, ex_t2, ex_bad]) - cleaned_ids (Inr [ex_c1, ex_c2])"
proof -
  have run: "clean_run [] [ex_t1, ex_t2, ex_bad] = (Inr [ex_c1, ex_c2], [''id4''])"
    by (rule ex_clean_run_bad)
  have na: "\<forall>r \<in> set [ex_t1, ex_t2, ex_bad]. \<not> has_na r" by (simp add: ex_has_na)
  from ledger_holds_filtered_ids[OF run] na obtain app where
    "[''id4''] = [] @ app"
    "set app = set (map id_col [ex_t1, ex_t2, ex_bad]) - cleaned_ids (Inr [ex_c1, ex_c2])"
    by blast
  then have "set [''id4''] = set (map id_col [ex_t1, ex_t2, ex_bad]) - cleaned_ids (Inr [ex_c1, ex_c2])"
    by simp
  with run show ?thesis by (simp only: ex_has_na simp_thms)
qed

text \<open>
  C2 as stated fails: a record dropped for a missing pick-up timestamp is absent from
  the cleaned output and from the ledger, and the later record of a duplicated
  identifier is dropped with no ledger entry.
\<close>

theorem ledger_misses_dropped_ids:
  "clean_run [] [ex_t1, ex_t2, ex_na] = (Inr [ex_c1, ex_c2], []) \<and>
   has_na ex_na \<and>
   set (map id_col [ex_t1, ex_t2, ex_na]) - cleaned_ids (Inr [ex_c1, ex_c2]) \<noteq> set [] \<and>
   clean_run [] [ex_t1, ex_dup, ex_t2] = (Inr [ex_c1, ex_c2], []) \<and>
   drop_duplicates id_col [ex_t1, ex_dup, ex_t2] = [ex_t1, ex_t2]"
  by (simp add: ex_clean_run_na ex_clean_run_dup ex_has_na ex_ids cleaned_ids_def
      drop_duplicates_def)

text \<open>
  C3, as amended. After \<open>insert_zones\<close> has loaded a batch, the row of every zone of
  the batch holds the mean of the pick-up and drop-off coordinates of all the trips of
  the batch that reference the zone by either end, both ends of each such trip
  counted, and the number of those trips.
\<close>

theorem zone_row_is_mean_of_referencing_trips:
  assumes "zn \<in> set zone_order"
  shows "\<exists>row. find (\<lambda>row. zone_name row = zn) (zones (insert_zones zone_order s df)) = Some row \<and>
     latitude row = np_mean (concat (map (\<lambda>r. [pickup_latitude r, dropoff_latitude r])
        (filter (\<lambda>r. pickup_zone r = Some zn \<or> dropoff_zone r = Some zn) df))) \<and>
     longitude row = np_mean (concat (map (\<lambda>r. [pickup_longitude r, dropoff_longitude r])
        (filter (\<lambda>r. pickup_zone r = Some zn \<or> dropoff_zone r = Some zn) df))) \<and>
     trip_count row = length (filter (\<lambda>r. pickup_zone r = Some zn \<or> dropoff_zone r = Some zn) df)"
  using zone_holds_find[OF insert_zones_holds[OF assms, of s df]]
  by (simp add: avg_lat_def avg_lon_def zone_trips_def)

theorem zone_row_is_mean_of_referencing_trips_witness:
  "''Zone_0_9'' \<in> set [''Zone_0_9'', ''Zone_19_9''] \<and>
   (\<exists>row. find (\<lambda>row. zone_name row = ''Zone_0_9'')
             (zones (insert_zones [''Zone_0_9'', ''Zone_19_9''] empty_store [ex_c1, ex_c2])) = Some row \<and>
          latitude row = Fin (3249 / 80) \<and> longitude row = Fin (-74) \<and> trip_count row = 2)"
proof -
  have m: "''Zone_0_9'' \<in> set [''Zone_0_9'', ''Zone_19_9'']" by simp
  have f: "filter (\<lambda>r. pickup_zone r = Some ''Zone_0_9'' \<or> dropoff_zone r = Some ''Zone_0_9'')
      [ex_c1, ex_c2] = [ex_c1, ex_c2]" by (simp add: ex_c_fields)
  from zone_row_is_mean_of_referencing_trips[OF m, of empty_store "[ex_c1, ex_c2]"]
  show ?thesis unfolding f by (auto simp: np_mean_def ex_c_fields numeral_2_eq_2)
qed

text \<open>
  C3 as stated fails: in the cleaned sample batch the zone \<open>Zone_0_9\<close> labels the
  pick-up of the first trip and the drop-off of the second, whose mean latitude is
  40.575, and the latitude written for it is 40.6125, the mean over both ends of both
  trips.
\<close>

theorem zone_mean_counterexample:
  "clean_run [] [ex_t1, ex_t2] = (Inr [ex_c1, ex_c2], []) \<and>
   map latitude (filter (\<lambda>row. zone_name row = ''Zone_0_9'')
      (zones (insert_zones [''Zone_0_9'', ''Zone_19_9''] empty_store [ex_c1, ex_c2])))
     = [Fin (3249 / 80)] \<and>
   own_zone_mean_lat [ex_c1, ex_c2] ''Zone_0_9'' = Fin (1623 / 40) \<and>
   Fin (3249 / 80) \<noteq> own_zone_mean_lat [ex_c1, ex_c2] ''Zone_0_9''"
proof -
  have "zones (insert_zones [''Zone_0_9'', ''Zone_19_9''] empty_store [ex_c1, ex_c2])
    = [\<lparr>z_pk = 1, zone_name = ''Zone_0_9'', latitude = Fin (3249 / 80), longitude = Fin (-74),
         trip_count = 2\<rparr>,
       \<lparr>z_pk = 2, zone_name = ''Zone_19_9'', latitude = avg_lat [ex_c1, ex_c2] ''Zone_19_9'',
         longitude = avg_lon [ex_c1, ex_c2] ''Zone_19_9'', trip_count = 2\<rparr>]"
    unfolding insert_zones_def
    by (simp add: upsert_zone_zones ex_zone_trips empty_store_def ex_avg)
  then show ?thesis by (simp add: ex_clean_run ex_own_mean)
qed









text \<open>
  C8. The cleaned output never holds two records with the same identifier, and of
  several input records that share an identifier the first is the one kept: the
  deduplication keeps the first occurrence of every identifier, and every record that
  is in the output of \<open>clean_data\<close>, or of the whole cleaning run, is the first input
  record of its identifier.
\<close>

theorem no_duplicate_ids_first_kept:
  "distinct (map id_col (fst (clean_data ex df))) \<and>
   (\<forall>r \<in> set (fst (clean_data ex df)). find (\<lambda>s. id_col s = id_col r) df = Some r) \<and>
   (\<forall>r \<in> set df. \<exists>k. k \<in> set (drop_duplicates id_col df) \<and> id_col k = id_col r \<and>
        find (\<lambda>s. id_col s = id_col r) df = Some k) \<and>
   (\<forall>out ex'. clean_run ex df = (Inr out, ex') \<longrightarrow>
      distinct (map id_col out) \<and>
      (\<forall>c \<in> set out. find (\<lambda>s. id_col s = id_col c) df = Some (raw_trip.truncate c)))"
proof (intro conjI ballI allI impI)
  show "distinct (map id_col (fst (clean_data ex df)))" by (rule clean_data_distinct)
next
  fix r assume "r \<in> set (fst (clean_data ex df))"
  then show "find (\<lambda>s. id_col s = id_col r) df = Some r" by (rule clean_data_first)
next
  fix r assume "r \<in> set df"
  then show "\<exists>k. k \<in> set (drop_duplicates id_col df) \<and> id_col k = id_col r \<and>
        find (\<lambda>s. id_col s = id_col r) df = Some k" by (rule first_occurrence_kept)
next
  fix out ex' assume run: "clean_run ex df = (Inr out, ex')"
  have sub: "subseq (map raw_trip.truncate out) (fst (clean_data ex df))"
    unfolding clean_run_truncate[OF run] unmasked_def by simp
  from subseq_distinct_map[OF sub clean_data_distinct]
  show "distinct (map id_col out)" by (simp only: map_id_truncate)
  fix c assume "c \<in> set out"
  then have "raw_trip.truncate c \<in> set (map raw_trip.truncate out)" by simp
  with subseq_set[OF sub] have "raw_trip.truncate c \<in> set (fst (clean_data ex df))" by blast
  from clean_data_first[OF this]
  show "find (\<lambda>s. id_col s = id_col c) df = Some (raw_trip.truncate c)"
    by (simp only: id_col_truncate)
qed

theorem no_duplicate_ids_first_kept_witness:
  "clean_data [] [ex_t1, ex_dup, ex_t2] = ([ex_t1, ex_t2], []) \<and>
   id_col ex_dup = id_col ex_t1 \<and> ex_dup \<noteq> ex_t1 \<and>
   distinct (map id_col [ex_t1, ex_t2]) \<and>
   find (\<lambda>s. id_col s = id_col ex_t1) [ex_t1, ex_dup, ex_t2] = Some ex_t1"
  using no_duplicate_ids_first_kept[of "[]" "[ex_t1, ex_dup, ex_t2]"]
  by (simp add: ex_clean_data_dup ex_ids ex_dup_differs)

text \<open>
  C9. The Haversine distance of the pipeline (Earth radius 6371 km, degrees turned into
  radians) is 0 between a point and itself, and is the same in both directions.
\<close>

theorem haversine_zero_and_symmetric:
  "haversine_distance (Fin lat) (Fin lon) (Fin lat) (Fin lon) = Fin 0 \<and>
   haversine_distance lat1 lon1 lat2 lon2 = haversine_distance lat2 lon2 lat1 lon1"
  using haversine_identical[of lat lon] haversine_sym[of lat1 lon1 lat2 lon2] by simp

theorem haversine_zero_and_symmetric_witness:
  "haversine_distance (Fin 40.5) (Fin (-74)) (Fin 40.5) (Fin (-74)) = Fin 0 \<and>
   haversine_distance (Fin 40.5) (Fin (-74)) (Fin 40.7) (Fin (-73.9))
     = haversine_distance (Fin 40.7) (Fin (-73.9)) (Fin 40.5) (Fin (-74))"
  using haversine_zero_and_symmetric[of "40.5" "-74" "Fin 40.5" "Fin (-74)" "Fin 40.7" "Fin (-73.9)"]
  by simp

text \<open>
  C10. \<open>clean_data\<close> and \<open>calculate_derived_features\<close> each return a subsequence of
  their input rows: no record is new, the order is kept, and a surviving record has its
  input's field values, \<open>calculate_derived_features\<close> adding the derived columns to
  them.
\<close>

theorem rows_are_subsequence:
  "subseq (fst (clean_data ex df)) df \<and>
   (\<forall>out ex'. calculate_derived_features ex df = (Inr out, ex') \<longrightarrow>
      subseq (map raw_trip.truncate out) df \<and>
      map raw_trip.truncate out = unmasked invalid_speed df \<and>
      (\<forall>c \<in> set out. \<exists>pz dz. c = derive_row (raw_trip.truncate c) pz dz))"
proof (intro conjI allI impI ballI)
  show "subseq (fst (clean_data ex df)) df" by (rule clean_data_subseq)
next
  fix out ex' assume run: "calculate_derived_features ex df = (Inr out, ex')"
  show t: "map raw_trip.truncate out = unmasked invalid_speed df" by (rule cdf_truncate[OF run])
  show "subseq (map raw_trip.truncate out) df" unfolding t unmasked_def by simp
  fix c assume "c \<in> set out"
  from cdf_row[OF run this] obtain r pz dz where "c = derive_row r pz dz" by blast
  then show "\<exists>pz dz. c = derive_row (raw_trip.truncate c) pz dz"
    by (auto simp: truncate_derive_row)
qed

theorem rows_are_subsequence_witness:
  "fst (clean_data [] [ex_t1, ex_dup, ex_t2]) = [ex_t1, ex_t2] \<and>
   subseq [ex_t1, ex_t2] [ex_t1, ex_dup, ex_t2] \<and>
   calculate_derived_features [] [ex_t1, ex_t2] = (Inr [ex_c1, ex_c2], []) \<and>
   map raw_trip.truncate [ex_c1, ex_c2] = [ex_t1, ex_t2] \<and>
   subseq (map raw_trip.truncate [ex_c1, ex_c2]) [ex_t1, ex_t2]"
  using rows_are_subsequence[of "[]" "[ex_t1, ex_dup, ex_t2]"]
    rows_are_subsequence[of "[]" "[ex_t1, ex_t2]"]
  by (simp add: ex_clean_data_dup ex_features ex_truncate)

end
